theory Spec2Isabelle
  imports Main "HOL-Library.Char_ord" "HOL-Library.List_Lexorder" "HOL-Library.AList"
    "HOL-Library.Word"
begin

section \<open>Data model\<close>

text \<open>
  The adapters of \<^verbatim>\<open>django_scim/adapters.py\<close> work on values decoded from JSON.
  A decoded object is an association list in insertion order (its keys are
  pairwise different in every decoded document); floating point numbers are
  left out.  A string is a list of code points below U+0100.
\<close>

datatype json =
    JNull
  | JBool bool
  | JInt int
  | JStr string
  | JList "json list"
  | JDict "(string \<times> json) list"

text \<open>Python's truth value of a decoded value (\<^verbatim>\<open>if value:\<close>, \<^verbatim>\<open>value or []\<close>).\<close>

fun truthy :: "json \<Rightarrow> bool" where
  "truthy JNull = False"
| "truthy (JBool b) = b"
| "truthy (JInt i) = (i \<noteq> 0)"
| "truthy (JStr s) = (s \<noteq> [])"
| "truthy (JList xs) = (xs \<noteq> [])"
| "truthy (JDict kvs) = (kvs \<noteq> [])"

text \<open>
  Modelled from the spec: the module \<^verbatim>\<open>exceptions\<close> is not part of the adapters'
  file; the specification names a bad request with an optional subtype
  (\<^verbatim>\<open>noTarget\<close>) and a not-implemented error, and the adapters construct them
  with a detail.

  Every exception the adapters can let escape.  \<open>BadRequestError\<close> carries its
  detail and its optional \<^verbatim>\<open>scim_type\<close>; \<open>NotImplementedError\<close> its optional
  detail.  \<open>NameError\<close>, \<open>TypeError\<close>, \<open>AttributeError\<close>, \<open>ValueError\<close>,
  \<open>IndexError\<close> and \<open>KeyError\<close> are the interpreter's own exceptions;
  \<open>ValidationError\<close> is the one of the email validator, \<open>OverflowError\<close> the
  one of the database binding for an integer it cannot hold, \<open>IntegrityError\<close>
  the one of the database for a row it refuses; \<open>ExternalError\<close> stands for
  whatever else a collaborator outside the adapters raises.
\<close>

datatype error =
    BadRequestError string "string option"
  | NotImplementedError "string option"
  | ValidationError
  | NameError string
  | TypeError
  | AttributeError
  | ValueError
  | IndexError
  | KeyError
  | OverflowError
  | IntegrityError
  | ExternalError string

text \<open>
  A handler mutates the adapter's object in place and may raise: the outcome
  keeps the state reached in both cases, since a mutation made before the
  exception stays.
\<close>

datatype 's outcome = Done 's | Raised error 's

text \<open>An attribute path is the 3-tuple \<^verbatim>\<open>(attr, subattr, uri)\<close>.\<close>

type_synonym attr_path = "string \<times> string option \<times> string option"

text \<open>
  Modelled from the spec: \<^verbatim>\<open>types.ComplexAttrPath\<close> is not part of the adapters'
  file; the specification describes it as the original path string together
  with the attribute paths found in it, a variant distinct from a single path.

  What \<^verbatim>\<open>split_path\<close> returns: one tuple, or the \<^verbatim>\<open>ComplexAttrPath\<close> built from
  the path string and every tuple found in it.
\<close>

datatype path = Simple attr_path | Complex string "attr_path list"

text \<open>
  The keys of a dictionary handed to a handler are resolved paths (after
  \<^verbatim>\<open>parse_path_and_value\<close> rebuilt it) or the strings of the decoded object.
\<close>

datatype key = PathKey path | StrKey string

text \<open>
  The value handed to a handler: the decoded value as it came, or the
  dictionary rebuilt by \<^verbatim>\<open>parse_path_and_value\<close>, in insertion order.
\<close>

datatype nvalue = Raw json | PathDict "(path \<times> json) list"

text \<open>
  One PATCH operation: \<^verbatim>\<open>operation.get('op')\<close>, \<^verbatim>\<open>operation.get('path')\<close> and
  \<^verbatim>\<open>operation.get('value')\<close>; \<open>None\<close> and \<open>JNull\<close> are Python's \<^verbatim>\<open>None\<close> of a
  missing key.
\<close>

record operation =
  opr_op :: "string option"
  opr_path :: "string option"
  opr_value :: json

section \<open>Python primitives\<close>

definition dquote :: char where
  "dquote = CHR 0x22"

text \<open>
  \<^verbatim>\<open>str.lower()\<close>: below U+0100 the upper-case letters are A to Z and U+00C0 to
  U+00DE without the multiplication sign U+00D7, each 32 below its lower-case
  letter.
\<close>

definition lower_char :: "char \<Rightarrow> char" where
  "lower_char c =
     (let n = (of_char c :: nat)
      in if (65 \<le> n \<and> n \<le> 90) \<or> (192 \<le> n \<and> n \<le> 222 \<and> n \<noteq> 215)
         then char_of (n + 32) else c)"

definition lower :: "string \<Rightarrow> string" where
  "lower s = map lower_char s"

text \<open>\<^verbatim>\<open>str.strip()\<close>: the characters \<^verbatim>\<open>str.isspace\<close> accepts below U+0100.\<close>

definition is_space :: "char \<Rightarrow> bool" where
  "is_space c =
     (let n = (of_char c :: nat)
      in (9 \<le> n \<and> n \<le> 13) \<or> (28 \<le> n \<and> n \<le> 32) \<or> n = 133 \<or> n = 160)"

definition strip :: "string \<Rightarrow> string" where
  "strip s = rev (dropWhile is_space (rev (dropWhile is_space s)))"

text \<open>\<^verbatim>\<open>d.get(k)\<close>: only a dictionary has the method; a missing key gives \<^verbatim>\<open>None\<close>.\<close>

fun dict_get :: "json \<Rightarrow> string \<Rightarrow> error + json" where
  "dict_get (JDict kvs) k = Inr (case map_of kvs k of None \<Rightarrow> JNull | Some v \<Rightarrow> v)"
| "dict_get _ k = Inl AttributeError"

text \<open>
  \<^verbatim>\<open>int(x)\<close>: an integer or a Boolean converts, a string is parsed in base 10
  (surrounding white space, one optional sign, digits that single underscores
  may separate), anything else is a \<^verbatim>\<open>TypeError\<close>.  The white space \<^verbatim>\<open>int\<close>
  skips is narrower than that of \<^verbatim>\<open>strip\<close>: U+001C to U+001F are not skipped.
  A literal of more than 4300 digits is refused (the interpreter's default
  limit on the conversion; underscores are not counted, leading zeros are).
\<close>

definition is_int_space :: "char \<Rightarrow> bool" where
  "is_int_space c =
     (let n = (of_char c :: nat)
      in (9 \<le> n \<and> n \<le> 13) \<or> n = 32 \<or> n = 133 \<or> n = 160)"

definition int_strip :: "string \<Rightarrow> string" where
  "int_strip s = rev (dropWhile is_int_space (rev (dropWhile is_int_space s)))"

definition int_max_str_digits :: int where
  "int_max_str_digits = 4300"

definition digit_val :: "char \<Rightarrow> int option" where
  "digit_val c =
     (let n = (of_char c :: int)
      in if 48 \<le> n \<and> n \<le> 57 then Some (n - 48) else None)"

fun py_digits :: "int \<Rightarrow> string \<Rightarrow> int option" where
  "py_digits acc [] = Some acc"
| "py_digits acc (c # cs) =
     (if c = CHR ''_'' then
        (case cs of
           [] \<Rightarrow> None
         | d # ds \<Rightarrow> (case digit_val d of None \<Rightarrow> None | Some _ \<Rightarrow> py_digits acc cs))
      else
        (case digit_val c of
           None \<Rightarrow> None
         | Some d \<Rightarrow> py_digits (10 * acc + d) cs))"

definition py_unsigned :: "string \<Rightarrow> int option" where
  "py_unsigned s =
     (case s of
        [] \<Rightarrow> None
      | c # cs \<Rightarrow>
          (case digit_val c of
             None \<Rightarrow> None
           | Some _ \<Rightarrow>
               if int (length (filter (\<lambda>d. d \<noteq> CHR ''_'') s)) > int_max_str_digits
               then None
               else py_digits 0 s))"

definition int_of_str :: "string \<Rightarrow> error + int" where
  "int_of_str s =
     (case int_strip s of
        [] \<Rightarrow> Inl ValueError
      | c # cs \<Rightarrow>
          if c = CHR ''-'' then
            (case py_unsigned cs of None \<Rightarrow> Inl ValueError | Some n \<Rightarrow> Inr (- n))
          else if c = CHR ''+'' then
            (case py_unsigned cs of None \<Rightarrow> Inl ValueError | Some n \<Rightarrow> Inr n)
          else
            (case py_unsigned (c # cs) of None \<Rightarrow> Inl ValueError | Some n \<Rightarrow> Inr n))"

fun py_int :: "json \<Rightarrow> error + int" where
  "py_int (JInt i) = Inr i"
| "py_int (JBool b) = Inr (if b then 1 else 0)"
| "py_int (JStr s) = int_of_str s"
| "py_int _ = Inl TypeError"

text \<open>
  Python's \<^verbatim>\<open>==\<close> on decoded values: a Boolean is the number 0 or 1, lists are
  equal element by element, dictionaries when they have the same keys with
  equal values.
\<close>

fun num_key :: "json \<Rightarrow> int option" where
  "num_key (JInt i) = Some i"
| "num_key (JBool b) = Some (if b then 1 else 0)"
| "num_key _ = None"

fun py_eq :: "json \<Rightarrow> json \<Rightarrow> bool" where
  "py_eq JNull JNull = True"
| "py_eq (JStr a) (JStr b) = (a = b)"
| "py_eq (JList xs) (JList ys) = list_all2 py_eq xs ys"
| "py_eq (JDict kvs) (JDict kvs') =
     (length kvs = length kvs' \<and>
      list_all (\<lambda>(k, v). case map_of kvs' k of None \<Rightarrow> False | Some v' \<Rightarrow> py_eq v v') kvs)"
| "py_eq x y =
     (case num_key x of
        None \<Rightarrow> False
      | Some i \<Rightarrow> (case num_key y of None \<Rightarrow> False | Some j \<Rightarrow> i = j))"

text \<open>
  Python's \<^verbatim>\<open><\<close> on decoded values, \<open>None\<close> for its \<^verbatim>\<open>TypeError\<close>: strings by
  code point, numbers by value, lists by the first position where they are
  not equal (the shorter list first when there is none); nothing else is
  ordered.
\<close>

fun json_lt :: "json \<Rightarrow> json \<Rightarrow> bool option"
  and list_lt :: "json list \<Rightarrow> json list \<Rightarrow> bool option" where
  "json_lt (JStr a) (JStr b) = Some (a < b)"
| "json_lt (JList xs) (JList ys) = list_lt xs ys"
| "json_lt x y =
     (case num_key x of
        None \<Rightarrow> None
      | Some i \<Rightarrow> (case num_key y of None \<Rightarrow> None | Some j \<Rightarrow> Some (i < j)))"
| "list_lt [] [] = Some False"
| "list_lt [] (y # ys) = Some True"
| "list_lt (x # xs) [] = Some False"
| "list_lt (x # xs) (y # ys) = (if py_eq x y then list_lt xs ys else json_lt x y)"

text \<open>
  \<^verbatim>\<open>sorted(xs, key=key)\<close>.  Fewer than two elements are never compared.  When
  every two keys can be compared, the result is the stable sort by \<^verbatim>\<open><\<close>: each
  element is put before the first later element that is not smaller.  When
  some key can be compared with no key (\<^verbatim>\<open>None\<close>, a dictionary) or the keys are
  of different kinds, the sort meets such a pair and raises \<^verbatim>\<open>TypeError\<close>.
  (Among keys that are all lists, a pair of lists that cannot be compared is
  met or not depending on the order of Python's comparisons; it is taken as
  met.)
\<close>

fun insert_by :: "('a \<Rightarrow> json) \<Rightarrow> 'a \<Rightarrow> 'a list \<Rightarrow> 'a list" where
  "insert_by key x [] = [x]"
| "insert_by key x (y # ys) =
     (if json_lt (key y) (key x) = Some True then y # insert_by key x ys else x # y # ys)"

definition py_sorted :: "('a \<Rightarrow> json) \<Rightarrow> 'a list \<Rightarrow> error + 'a list" where
  "py_sorted key xs =
     (if length xs \<le> 1 then Inr xs
      else if list_all (\<lambda>x. list_all (\<lambda>y. json_lt (key x) (key y) \<noteq> None) xs) xs
        then Inr (foldr (insert_by key) xs [])
      else Inl TypeError)"

section \<open>Collaborators outside the adapters\<close>

text \<open>
  \<^verbatim>\<open>ATTR_MAP\<close>: attribute path to the name of the model field, in the order the
  class writes it.
\<close>

type_synonym attr_map = "(attr_path \<times> string) list"

text \<open>
  \<^verbatim>\<open>list(AttrPaths(filter_, ATTR_MAP))\<close> of the package scim2-filter-parser: the
  attribute paths of a filter, or the parser's exception.  It is a parameter
  of everything that resolves a path.
\<close>

type_synonym attr_paths = "string \<Rightarrow> attr_map \<Rightarrow> error + attr_path list"

text \<open>
  \<^verbatim>\<open>core.validators.EmailValidator()(email)\<close> of Django: \<open>None\<close> when it returns,
  \<open>Some ValidationError\<close> when it rejects, any other exception as it is.
\<close>

type_synonym email_validator = "json \<Rightarrow> error option"

text \<open>
  \<^verbatim>\<open>self.obj.save()\<close> of Django, on the fields it is to write: \<open>None\<close> when the
  row is written, the exception otherwise (a row the database refuses, such
  as a user name another row has, is an \<^verbatim>\<open>IntegrityError\<close>).
\<close>

type_synonym 'o model_save = "'o \<Rightarrow> error option"

section \<open>SCIMMixin\<close>

text \<open>
  Modelled from the spec: \<^verbatim>\<open>constants.VALID_PATCH_OPS\<close> is not part of the
  adapters' file; the specification gives the fixed set of op codes as add,
  remove and replace.
\<close>

definition VALID_PATCH_OPS :: "string list" where
  "VALID_PATCH_OPS = [''add'', ''remove'', ''replace'']"

definition handle_complex_attr_path :: "string \<Rightarrow> attr_path list \<Rightarrow> path" where
  "handle_complex_attr_path path attr_paths = Complex path attr_paths"

text \<open>
  \<^verbatim>\<open>split_path\<close>.  \<^verbatim>\<open>path + ' eq ""'\<close> is a \<^verbatim>\<open>TypeError\<close> when \<^verbatim>\<open>path\<close> is \<^verbatim>\<open>None\<close>.
  The branch for no attribute path evaluates \<^verbatim>\<open>scim_exceptions.BadRequestError\<close>,
  and the module binds no name \<^verbatim>\<open>scim_exceptions\<close> (it imports \<^verbatim>\<open>exceptions\<close>):
  the \<^verbatim>\<open>raise\<close> statement ends in a \<^verbatim>\<open>NameError\<close>.
\<close>

definition split_path :: "attr_paths \<Rightarrow> attr_map \<Rightarrow> string option \<Rightarrow> error + path" where
  "split_path AttrPaths ATTR_MAP path =
     (case path of
        None \<Rightarrow> Inl TypeError
      | Some p \<Rightarrow>
          (case AttrPaths (p @ '' eq '' @ [dquote, dquote]) ATTR_MAP of
             Inl e \<Rightarrow> Inl e
           | Inr attr_paths \<Rightarrow>
               if length attr_paths = 0 then Inl (NameError ''scim_exceptions'')
               else if length attr_paths > 1 then Inr (handle_complex_attr_path p attr_paths)
               else Inr (Simple (attr_paths ! 0))))"

text \<open>
  The loop of \<^verbatim>\<open>parse_path_and_value\<close> over \<^verbatim>\<open>value.items()\<close>:
  \<^verbatim>\<open>new_value[self.split_path(k)] = v\<close> replaces the value of a key already
  there, in its place, and appends a new key.
\<close>

fun split_items ::
  "attr_paths \<Rightarrow> attr_map \<Rightarrow> (string \<times> json) list \<Rightarrow> (path \<times> json) list
     \<Rightarrow> error + (path \<times> json) list" where
  "split_items AttrPaths ATTR_MAP [] new_value = Inr new_value"
| "split_items AttrPaths ATTR_MAP ((k, v) # kvs) new_value =
     (case split_path AttrPaths ATTR_MAP (Some k) of
        Inl e \<Rightarrow> Inl e
      | Inr p \<Rightarrow> split_items AttrPaths ATTR_MAP kvs (AList.update p v new_value))"

text \<open>\<^verbatim>\<open>not path\<close> for the raw path: \<^verbatim>\<open>None\<close> or the empty string.\<close>

definition not_path :: "string option \<Rightarrow> bool" where
  "not_path path = (path = None \<or> path = Some [])"

fun parse_path_and_value ::
  "attr_paths \<Rightarrow> attr_map \<Rightarrow> string option \<Rightarrow> json \<Rightarrow> error + (path option \<times> nvalue)" where
  "parse_path_and_value AttrPaths ATTR_MAP path (JDict kvs) =
     (if not_path path then
        (case split_items AttrPaths ATTR_MAP kvs [] of
           Inl e \<Rightarrow> Inl e
         | Inr new_value \<Rightarrow> Inr (None, PathDict new_value))
      else
        (case split_path AttrPaths ATTR_MAP path of
           Inl e \<Rightarrow> Inl e
         | Inr new_path \<Rightarrow> Inr (Some new_path, Raw (JDict kvs))))"
| "parse_path_and_value AttrPaths ATTR_MAP path v =
     (case split_path AttrPaths ATTR_MAP path of
        Inl e \<Rightarrow> Inl e
      | Inr new_path \<Rightarrow> Inr (Some new_path, Raw v))"

text \<open>
  A handler takes the normalised path, the normalised value and the raw
  operation.  \<^verbatim>\<open>getattr(self, name)\<close> is the adapter: the handler a class binds
  to a method name.
\<close>

type_synonym 's handler = "path option \<Rightarrow> nvalue \<Rightarrow> operation \<Rightarrow> 's \<Rightarrow> 's outcome"

type_synonym 's adapter = "string \<Rightarrow> 's handler option"

text \<open>
  \<^verbatim>\<open>handle_operations\<close>.  The normalised path is falsy only when it is \<^verbatim>\<open>None\<close>:
  a 3-tuple and a \<^verbatim>\<open>ComplexAttrPath\<close> object are truthy.
\<close>

fun handle_operations ::
  "attr_paths \<Rightarrow> attr_map \<Rightarrow> 's adapter \<Rightarrow> operation list \<Rightarrow> 's \<Rightarrow> 's outcome" where
  "handle_operations AttrPaths ATTR_MAP getattr [] st = Done st"
| "handle_operations AttrPaths ATTR_MAP getattr (operation # operations) st =
     (case parse_path_and_value AttrPaths ATTR_MAP (opr_path operation) (opr_value operation) of
        Inl e \<Rightarrow> Raised e st
      | Inr (path, v) \<Rightarrow>
          (case opr_op operation of
             None \<Rightarrow> Raised AttributeError st
           | Some raw_op \<Rightarrow>
               (let op_code = lower raw_op in
                if op_code \<notin> set VALID_PATCH_OPS then
                  Raised (BadRequestError
                    (''Unknown PATCH op '' @ [dquote] @ op_code @ [dquote]) None) st
                else if op_code = ''remove'' \<and> path = None then
                  Raised (BadRequestError
                    ([dquote] @ ''path'' @ [dquote] @ '' must be specified during ''
                      @ [dquote] @ ''remove'' @ [dquote] @ '' PATCH calls'')
                    (Some ''noTarget'')) st
                else
                  (case getattr (''handle_'' @ op_code) of
                     None \<Rightarrow> Raised AttributeError st
                   | Some handler \<Rightarrow>
                       (case handler path v operation st of
                          Raised e st' \<Rightarrow> Raised e st'
                        | Done st' \<Rightarrow>
                            handle_operations AttrPaths ATTR_MAP getattr operations st')))))"

text \<open>The handlers of the base class.\<close>

definition handle_add :: "'s handler" where
  "handle_add path v operation st = Raised (NotImplementedError None) st"

definition handle_remove :: "'s handler" where
  "handle_remove path v operation st = Raised (NotImplementedError None) st"

definition handle_replace :: "'s handler" where
  "handle_replace path v operation st = Raised (NotImplementedError None) st"

section \<open>SCIMUser\<close>

text \<open>
  The fields of the Django user the adapter writes.  \<^verbatim>\<open>setattr\<close> stores whatever
  decoded value the request carried, so a field holds a decoded value.
\<close>

record user_obj =
  username :: json
  first_name :: json
  last_name :: json
  is_active :: json
  email :: json

text \<open>
  The adapter's state: the object in memory and the row \<^verbatim>\<open>self.obj.save()\<close>
  wrote last.  A save that raises writes nothing and leaves the object in
  memory as it is.
\<close>

record user_state =
  obj :: user_obj
  stored :: user_obj

definition save :: "user_obj model_save \<Rightarrow> user_state \<Rightarrow> user_state outcome" where
  "save Model_save st =
     (case Model_save (obj st) of
        None \<Rightarrow> Done (st\<lparr>stored := obj st\<rparr>)
      | Some e \<Rightarrow> Raised e st)"

definition USER_ATTR_MAP :: attr_map where
  "USER_ATTR_MAP =
     [((''userName'', None, None), ''username''),
      ((''name'', Some ''familyName'', None), ''last_name''),
      ((''familyName'', None, None), ''last_name''),
      ((''name'', Some ''givenName'', None), ''first_name''),
      ((''givenName'', None, None), ''first_name''),
      ((''active'', None, None), ''is_active'')]"

text \<open>\<^verbatim>\<open>setattr(self.obj, field, value)\<close> for the fields of the record.\<close>

definition setattr :: "string \<Rightarrow> json \<Rightarrow> user_obj \<Rightarrow> user_obj" where
  "setattr field v u =
     (if field = ''username'' then u\<lparr>username := v\<rparr>
      else if field = ''first_name'' then u\<lparr>first_name := v\<rparr>
      else if field = ''last_name'' then u\<lparr>last_name := v\<rparr>
      else if field = ''is_active'' then u\<lparr>is_active := v\<rparr>
      else if field = ''email'' then u\<lparr>email := v\<rparr>
      else u)"

definition validate_email :: "email_validator \<Rightarrow> json \<Rightarrow> error option" where
  "validate_email EmailValidator email' =
     (case EmailValidator email' of
        None \<Rightarrow> None
      | Some ValidationError \<Rightarrow> Some (BadRequestError ''Invalid email value'' None)
      | Some e \<Rightarrow> Some e)"

text \<open>
  The generator \<^verbatim>\<open>(e for e in value if e.get('primary'))\<close>, and its negation for
  \<open>want = False\<close>: \<^verbatim>\<open>e.get\<close> raises on the first entry that is no dictionary.
\<close>

fun primary_entries :: "bool \<Rightarrow> json list \<Rightarrow> error + json list" where
  "primary_entries want [] = Inr []"
| "primary_entries want (e # es) =
     (case dict_get e ''primary'' of
        Inl err \<Rightarrow> Inl err
      | Inr p \<Rightarrow>
          (case primary_entries want es of
             Inl err \<Rightarrow> Inl err
           | Inr rest \<Rightarrow> Inr (if truthy p = want then e # rest else rest)))"

text \<open>The sort key \<^verbatim>\<open>lambda d: d.get('value')\<close>, on an entry that is a dictionary.\<close>

definition value_of :: "json \<Rightarrow> json" where
  "value_of d = (case dict_get d ''value'' of Inr v \<Rightarrow> v | Inl _ \<Rightarrow> JNull)"

text \<open>
  The email \<^verbatim>\<open>parse_emails\<close> picks from a truthy value: the first of the sorted
  primary entries followed by the sorted other entries of a list, the stripped
  \<^verbatim>\<open>value\<close> of a dictionary, \<^verbatim>\<open>None\<close> for anything else.
\<close>

definition select_email :: "json \<Rightarrow> error + json" where
  "select_email v =
     (case v of
        JList es \<Rightarrow>
          (case primary_entries True es of
             Inl err \<Rightarrow> Inl err
           | Inr ps \<Rightarrow>
               (case py_sorted value_of ps of
                  Inl err \<Rightarrow> Inl err
                | Inr primary_emails \<Rightarrow>
                    (case primary_entries False es of
                       Inl err \<Rightarrow> Inl err
                     | Inr ss \<Rightarrow>
                         (case py_sorted value_of ss of
                            Inl err \<Rightarrow> Inl err
                          | Inr secondary_emails \<Rightarrow>
                              (case primary_emails @ secondary_emails of
                                 [] \<Rightarrow> Inl (BadRequestError ''Invalid email value'' None)
                               | e # _ \<Rightarrow> dict_get e ''value'')))))
      | JDict kvs \<Rightarrow>
          (case dict_get v ''value'' of
             Inl err \<Rightarrow> Inl err
           | Inr x \<Rightarrow>
               (case (if truthy x then x else JStr []) of
                  JStr s \<Rightarrow> Inr (JStr (strip s))
                | _ \<Rightarrow> Inl AttributeError))
      | _ \<Rightarrow> Inr JNull)"

definition parse_emails :: "email_validator \<Rightarrow> json \<Rightarrow> user_state \<Rightarrow> user_state outcome" where
  "parse_emails EmailValidator v st =
     (if truthy v then
        (case select_email v of
           Inl err \<Rightarrow> Raised err st
         | Inr email' \<Rightarrow>
             (case validate_email EmailValidator email' of
                Some err \<Rightarrow> Raised err st
              | None \<Rightarrow> Done (st\<lparr>obj := (obj st)\<lparr>email := email'\<rparr>\<rparr>)))
      else Done st)"

text \<open>
  \<^verbatim>\<open>value.items()\<close> when \<^verbatim>\<open>isinstance(value, dict)\<close>: the keys of the rebuilt
  dictionary are paths, the keys of a decoded object are strings.
\<close>

definition dict_items :: "nvalue \<Rightarrow> (key \<times> json) list option" where
  "dict_items v =
     (case v of
        Raw (JDict kvs) \<Rightarrow> Some (map (\<lambda>(k, x). (StrKey k, x)) kvs)
      | Raw _ \<Rightarrow> None
      | PathDict pvs \<Rightarrow> Some (map (\<lambda>(p, x). (PathKey p, x)) pvs))"

text \<open>\<^verbatim>\<open>ATTR_MAP.get(path)\<close>: only a 3-tuple can be a key of the map.\<close>

fun attr_map_get :: "attr_map \<Rightarrow> key \<Rightarrow> string option" where
  "attr_map_get ATTR_MAP (PathKey (Simple t)) = map_of ATTR_MAP t"
| "attr_map_get ATTR_MAP _ = None"

fun replace_items ::
  "email_validator \<Rightarrow> (key \<times> json) list \<Rightarrow> user_state \<Rightarrow> user_state outcome" where
  "replace_items EmailValidator [] st = Done st"
| "replace_items EmailValidator ((k, v) # rest) st =
     (case attr_map_get USER_ATTR_MAP k of
        Some field \<Rightarrow>
          replace_items EmailValidator rest (st\<lparr>obj := setattr field v (obj st)\<rparr>)
      | None \<Rightarrow>
          if k = PathKey (Simple (''emails'', None, None)) then
            (case parse_emails EmailValidator v st of
               Raised e st' \<Rightarrow> Raised e st'
             | Done st' \<Rightarrow> replace_items EmailValidator rest st')
          else Raised (NotImplementedError (Some ''Not Implemented'')) st)"

text \<open>
  \<^verbatim>\<open>SCIMUser.handle_replace\<close>.  A path and a string become the one-entry
  dictionary \<^verbatim>\<open>{path: value}\<close> first; a value that is no dictionary then is
  not implemented; the loop runs over the dictionary, and the user is saved
  after it.
\<close>

definition user_handle_replace ::
  "email_validator \<Rightarrow> user_obj model_save \<Rightarrow> user_state handler" where
  "user_handle_replace EmailValidator Model_save path v operation st =
     (case dict_items
        (case path of
           Some p \<Rightarrow> (case v of Raw (JStr s) \<Rightarrow> PathDict [(p, JStr s)] | _ \<Rightarrow> v)
         | None \<Rightarrow> v) of
        None \<Rightarrow>
          Raised (NotImplementedError (Some
            (''PATCH replace operation with value type of ''
              @ ''{type(value)} is not implemented''))) st
      | Some items \<Rightarrow>
          (case replace_items EmailValidator items st of
             Raised e st' \<Rightarrow> Raised e st'
           | Done st' \<Rightarrow> save Model_save st'))"

text \<open>The methods of \<^verbatim>\<open>SCIMUser\<close> that \<^verbatim>\<open>handle_operations\<close> can look up.\<close>

definition user_adapter ::
  "email_validator \<Rightarrow> user_obj model_save \<Rightarrow> user_state adapter" where
  "user_adapter EmailValidator Model_save method =
     (if method = ''handle_add'' then Some handle_add
      else if method = ''handle_remove'' then Some handle_remove
      else if method = ''handle_replace''
        then Some (user_handle_replace EmailValidator Model_save)
      else None)"

section \<open>SCIMGroup\<close>

text \<open>
  The group: its name, the ids of the users in \<^verbatim>\<open>user_set\<close> (the relation is
  written at once by \<^verbatim>\<open>add\<close> and \<^verbatim>\<open>remove\<close>), and the name last saved.
\<close>

record group_state =
  name :: json
  user_set :: "int set"
  stored_name :: json

text \<open>
  What the comprehension \<^verbatim>\<open>for member in members\<close> visits, for
  \<^verbatim>\<open>members = value or []\<close>: the elements of a list, the characters of a
  string, the keys of a dictionary; a number is not iterable.  The keys of a
  rebuilt dictionary are tuples, which have no \<^verbatim>\<open>get\<close>.
\<close>

fun members_of :: "nvalue \<Rightarrow> error + json list" where
  "members_of (Raw v) =
     (if \<not> truthy v then Inr []
      else (case v of
              JList xs \<Rightarrow> Inr xs
            | JStr s \<Rightarrow> Inr (map (\<lambda>c. JStr [c]) s)
            | JDict kvs \<Rightarrow> Inr (map (\<lambda>(k, x). JStr k) kvs)
            | _ \<Rightarrow> Inl TypeError))"
| "members_of (PathDict pvs) = (if pvs = [] then Inr [] else Inl AttributeError)"

text \<open>\<^verbatim>\<open>[int(member.get('value')) for member in members]\<close>.\<close>

fun member_ids :: "json list \<Rightarrow> error + int list" where
  "member_ids [] = Inr []"
| "member_ids (member # members) =
     (case dict_get member ''value'' of
        Inl e \<Rightarrow> Inl e
      | Inr x \<Rightarrow>
          (case py_int x of
             Inl e \<Rightarrow> Inl e
           | Inr i \<Rightarrow>
               (case member_ids members of
                  Inl e \<Rightarrow> Inl e
                | Inr ids \<Rightarrow> Inr (i # ids))))"

text \<open>
  \<^verbatim>\<open>get_user_model().objects.filter(id__in=ids)\<close>, evaluated by \<^verbatim>\<open>users.count()\<close>,
  over the table of users.  The id of a row is a signed 64-bit integer, so the
  table is given by a set of such words.  The adapters hand the ids to the
  database as they are: an id outside that range makes the binding raise
  \<^verbatim>\<open>OverflowError\<close> (as SQLite's does); otherwise the answer is each row whose
  id is among \<open>ids\<close>, once.
\<close>

definition in_int64 :: "int \<Rightarrow> bool" where
  "in_int64 i = (- (2 ^ 63) \<le> i \<and> i < 2 ^ 63)"

definition filter_id_in :: "64 word set \<Rightarrow> int list \<Rightarrow> error + int list" where
  "filter_id_in users ids =
     (if list_all in_int64 ids
      then Inr (remdups (filter (\<lambda>i. word_of_int i \<in> users) ids))
      else Inl OverflowError)"

definition user_set_add :: "int \<Rightarrow> group_state \<Rightarrow> group_state" where
  "user_set_add user st = st\<lparr>user_set := insert user (user_set st)\<rparr>"

definition user_set_remove :: "int \<Rightarrow> group_state \<Rightarrow> group_state" where
  "user_set_remove user st = st\<lparr>user_set := user_set st - {user}\<rparr>"

definition group_handle_add :: "64 word set \<Rightarrow> group_state handler" where
  "group_handle_add users path v operation st =
     (if path = Some (Simple (''members'', None, None)) then
        (case members_of v of
           Inl e \<Rightarrow> Raised e st
         | Inr members \<Rightarrow>
             (case member_ids members of
                Inl e \<Rightarrow> Raised e st
              | Inr ids \<Rightarrow>
                  (case filter_id_in users ids of
                     Inl e \<Rightarrow> Raised e st
                   | Inr found \<Rightarrow>
                       if length ids \<noteq> length found then
                         Raised (BadRequestError
                           ''Can not add a non-existent user to group'' None) st
                       else Done (fold user_set_add found st))))
      else Raised (NotImplementedError None) st)"

definition group_handle_remove :: "64 word set \<Rightarrow> group_state handler" where
  "group_handle_remove users path v operation st =
     (if path = Some (Simple (''members'', None, None)) then
        (case members_of v of
           Inl e \<Rightarrow> Raised e st
         | Inr members \<Rightarrow>
             (case member_ids members of
                Inl e \<Rightarrow> Raised e st
              | Inr ids \<Rightarrow>
                  (case filter_id_in users ids of
                     Inl e \<Rightarrow> Raised e st
                   | Inr found \<Rightarrow>
                       if length ids \<noteq> length found then
                         Raised (BadRequestError
                           ''Can not remove a non-existent user from group'' None) st
                       else Done (fold user_set_remove found st))))
      else Raised (NotImplementedError None) st)"

text \<open>\<^verbatim>\<open>value[0]\<close> of \<^verbatim>\<open>SCIMGroup.handle_replace\<close>.\<close>

fun first_item :: "nvalue \<Rightarrow> error + json" where
  "first_item (Raw (JList [])) = Inl IndexError"
| "first_item (Raw (JList (x # xs))) = Inr x"
| "first_item (Raw (JStr [])) = Inl IndexError"
| "first_item (Raw (JStr (c # cs))) = Inr (JStr [c])"
| "first_item (Raw (JDict kvs)) = Inl KeyError"
| "first_item (Raw _) = Inl TypeError"
| "first_item (PathDict pvs) = Inl KeyError"

text \<open>
  \<^verbatim>\<open>SCIMGroup.handle_replace\<close> assigns the name and saves; the save is given
  the name to write.
\<close>

definition group_handle_replace :: "json model_save \<Rightarrow> group_state handler" where
  "group_handle_replace Model_save path v operation st =
     (if path = Some (Simple (''name'', None, None)) then
        (case first_item v of
           Inl e \<Rightarrow> Raised e st
         | Inr x \<Rightarrow>
             (case dict_get x ''value'' of
                Inl e \<Rightarrow> Raised e st
              | Inr name' \<Rightarrow>
                  (case Model_save name' of
                     None \<Rightarrow> Done (st\<lparr>name := name', stored_name := name'\<rparr>)
                   | Some e \<Rightarrow> Raised e (st\<lparr>name := name'\<rparr>))))
      else Raised (NotImplementedError None) st)"

definition group_adapter :: "64 word set \<Rightarrow> json model_save \<Rightarrow> group_state adapter" where
  "group_adapter users Model_save method =
     (if method = ''handle_add'' then Some (group_handle_add users)
      else if method = ''handle_remove'' then Some (group_handle_remove users)
      else if method = ''handle_replace'' then Some (group_handle_replace Model_save)
      else None)"

section \<open>Instances of the collaborators, for evaluation\<close>

text \<open>
  A parser for the filters \<^verbatim>\<open>split_path\<close> builds from a bare attribute name: on
  \<^verbatim>\<open>name eq ""\<close>, with \<^verbatim>\<open>name\<close> a non-empty run of ASCII letters, the one path
  \<^verbatim>\<open>(name, None, None)\<close>; on anything else the parser's error.
\<close>

definition is_letter :: "char \<Rightarrow> bool" where
  "is_letter c =
     (let n = (of_char c :: nat)
      in (65 \<le> n \<and> n \<le> 90) \<or> (97 \<le> n \<and> n \<le> 122))"

definition bare_attr_paths :: attr_paths where
  "bare_attr_paths fltr ATTR_MAP =
     (let suffix = '' eq '' @ [dquote, dquote];
          n = length fltr - length suffix;
          attr = take n fltr
      in if attr \<noteq> [] \<and> drop n fltr = suffix \<and> list_all is_letter attr
         then Inr [(attr, None, None)]
         else Inl (ExternalError ''SCIMParserError''))"

text \<open>A validator that accepts the strings with an at sign and rejects the rest.\<close>

definition at_sign_validator :: email_validator where
  "at_sign_validator v =
     (case v of
        JStr s \<Rightarrow> if CHR ''@'' \<in> set s then None else Some ValidationError
      | _ \<Rightarrow> Some ValidationError)"

text \<open>
  A save that refuses a user whose name another row has, and one that refuses
  a group name another row has.
\<close>

definition unique_username_save :: "json list \<Rightarrow> user_obj model_save" where
  "unique_username_save taken u =
     (if username u \<in> set taken then Some IntegrityError else None)"

definition unique_name_save :: "json list \<Rightarrow> json model_save" where
  "unique_name_save taken n = (if n \<in> set taken then Some IntegrityError else None)"

definition user0 :: user_state where
  "user0 =
     \<lparr>obj = \<lparr>username = JStr ''alice'', first_name = JStr ''Alice'',
             last_name = JStr ''Doe'', is_active = JBool False,
             email = JStr ''alice@x.com''\<rparr>,
      stored = \<lparr>username = JStr ''alice'', first_name = JStr ''Alice'',
                last_name = JStr ''Doe'', is_active = JBool False,
                email = JStr ''alice@x.com''\<rparr>\<rparr>"

definition users0 :: "64 word set" where
  "users0 = {1, 2, 3}"

definition group0 :: group_state where
  "group0 = \<lparr>name = JStr ''staff'', user_set = {2}, stored_name = JStr ''staff''\<rparr>"

text \<open>An adapter whose handlers all succeed and count their calls.\<close>

definition probe_adapter :: "nat adapter" where
  "probe_adapter method = Some (\<lambda>path v operation n. Done (Suc n))"

section \<open>The email rule in the words of the specification\<close>

text \<open>
  An entry is well formed when it is a dictionary whose \<^verbatim>\<open>value\<close> is a string;
  it is primary when its \<^verbatim>\<open>primary\<close> is truthy.  The specification's order:
  the primary entries sorted by value, then the other entries sorted by value.
\<close>

definition well_formed_entry :: "json \<Rightarrow> bool" where
  "well_formed_entry e =
     (case e of
        JDict kvs \<Rightarrow> (case map_of kvs ''value'' of Some (JStr s) \<Rightarrow> True | _ \<Rightarrow> False)
      | _ \<Rightarrow> False)"

definition is_primary :: "json \<Rightarrow> bool" where
  "is_primary e = (case dict_get e ''primary'' of Inr p \<Rightarrow> truthy p | Inl _ \<Rightarrow> False)"

definition entry_value :: "json \<Rightarrow> string" where
  "entry_value e = (case value_of e of JStr s \<Rightarrow> s | _ \<Rightarrow> [])"

definition spec_email_order :: "json list \<Rightarrow> json list" where
  "spec_email_order es =
     sort_key entry_value (filter is_primary es)
       @ sort_key entry_value (filter (\<lambda>e. \<not> is_primary e) es)"

definition example_emails :: "json list" where
  "example_emails =
     [JDict [(''value'', JStr ''b@x.com''), (''primary'', JBool False)],
      JDict [(''value'', JStr ''a@x.com''), (''primary'', JBool True)],
      JDict [(''value'', JStr ''z@x.com''), (''primary'', JBool True)]]"

section \<open>Notions the statements use\<close>

text \<open>\<^verbatim>\<open>isinstance(value, dict)\<close> on a decoded value.\<close>

definition isinstance_dict :: "json \<Rightarrow> bool" where
  "isinstance_dict v = (case v of JDict kvs \<Rightarrow> True | _ \<Rightarrow> False)"

text \<open>\<^verbatim>\<open>isinstance(value, str)\<close> on a decoded value.\<close>

definition isinstance_str :: "json \<Rightarrow> bool" where
  "isinstance_str v = (case v of JStr s \<Rightarrow> True | _ \<Rightarrow> False)"

text \<open>\<^verbatim>\<open>SCIMMixin.ATTR_MAP\<close>, which \<^verbatim>\<open>SCIMGroup\<close> inherits.\<close>

definition GROUP_ATTR_MAP :: attr_map where
  "GROUP_ATTR_MAP = []"

text \<open>
  The replace operation without a path whose value is the mapping \<open>kvs\<close>, and
  the replace operations with one key of \<open>kvs\<close> as path and its value as
  value, in the order of \<open>kvs\<close>.
\<close>

definition pathless_replace :: "(string \<times> json) list \<Rightarrow> operation" where
  "pathless_replace kvs = \<lparr>opr_op = Some ''replace'', opr_path = None, opr_value = JDict kvs\<rparr>"

definition replace_per_key :: "(string \<times> json) list \<Rightarrow> operation list" where
  "replace_per_key kvs =
     map (\<lambda>(k, v). \<lparr>opr_op = Some ''replace'', opr_path = Some k, opr_value = v\<rparr>) kvs"

text \<open>The key \<open>k\<close> resolves to one attribute path, and \<^verbatim>\<open>SCIMUser.ATTR_MAP\<close> has it.\<close>

definition resolves_in_map :: "attr_paths \<Rightarrow> string \<Rightarrow> bool" where
  "resolves_in_map AttrPaths k =
     (case split_path AttrPaths USER_ATTR_MAP (Some k) of
        Inr (Simple t) \<Rightarrow> map_of USER_ATTR_MAP t \<noteq> None
      | _ \<Rightarrow> False)"

text \<open>The path of a key that resolves, and the assignments a dictionary of mapped paths makes.\<close>

definition resolved :: "attr_paths \<Rightarrow> string \<Rightarrow> path" where
  "resolved AttrPaths k =
     (case split_path AttrPaths USER_ATTR_MAP (Some k) of Inr p \<Rightarrow> p | Inl _ \<Rightarrow> Complex [] [])"

definition path_items :: "attr_paths \<Rightarrow> (string \<times> json) list \<Rightarrow> (key \<times> json) list" where
  "path_items AttrPaths kvs = map (\<lambda>(k, v). (PathKey (resolved AttrPaths k), v)) kvs"

fun assign_items :: "(key \<times> json) list \<Rightarrow> user_obj \<Rightarrow> user_obj" where
  "assign_items [] u = u"
| "assign_items ((k, v) # rest) u =
     assign_items rest
       (case attr_map_get USER_ATTR_MAP k of Some field \<Rightarrow> setattr field v u | None \<Rightarrow> u)"

text \<open>
  The saves of the replace operations with one key each: the object after
  each assignment is one the save accepts.
\<close>

fun per_key_saves :: "user_obj model_save \<Rightarrow> (key \<times> json) list \<Rightarrow> user_obj \<Rightarrow> bool" where
  "per_key_saves Model_save [] u = True"
| "per_key_saves Model_save (item # rest) u =
     (Model_save (assign_items [item] u) = None
      \<and> per_key_saves Model_save rest (assign_items [item] u))"

definition example_mapping :: "(string \<times> json) list" where
  "example_mapping = [(''active'', JBool True), (''userName'', JStr ''bob'')]"

definition example_names :: "(string \<times> json) list" where
  "example_names = [(''userName'', JStr ''bob''), (''givenName'', JStr ''Bob'')]"

section \<open>Group membership\<close>

lemma in_int64_sint: "in_int64 (sint (w :: 64 word))"
  using sint_ge [of w] sint_lt [of w] by (simp add: in_int64_def)

lemma word_of_int_in_table:
  assumes "in_int64 i" and "word_of_int i \<in> users"
  shows "i \<in> sint ` (users :: 64 word set)"
proof -
  have "sint (word_of_int i :: 64 word) = i"
    using assms(1) by (simp add: in_int64_def sint_sbintrunc' signed_take_bit_int_eq_self)
  then show ?thesis using assms(2) by (metis imageI)
qed

lemma filter_id_in_missing:
  assumes "i \<in> set ids" and "i \<notin> sint ` users" and "filter_id_in users ids = Inr found"
  shows "length found < length ids"
proof -
  from assms(3) have r: "list_all in_int64 ids"
    and f: "found = remdups (filter (\<lambda>i. word_of_int i \<in> users) ids)"
    by (auto simp: filter_id_in_def split: if_splits)
  from r assms(1) have "in_int64 i" by (simp add: list_all_iff)
  with assms(2) have "word_of_int i \<notin> users" using word_of_int_in_table by blast
  then have "length (filter (\<lambda>i. word_of_int i \<in> users) ids) < length ids"
    using assms(1) by (intro length_filter_less [of i]) auto
  moreover have "length found \<le> length (filter (\<lambda>i. word_of_int i \<in> users) ids)"
    unfolding f by (rule length_remdups_leq)
  ultimately show ?thesis by simp
qed

lemma filter_id_in_all:
  assumes "distinct ids" and "set ids \<subseteq> sint ` users"
  shows "filter_id_in users ids = Inr ids"
proof -
  have r: "list_all in_int64 ids"
    using assms(2) in_int64_sint by (auto simp: list_all_iff)
  have "\<And>i. i \<in> set ids \<Longrightarrow> word_of_int i \<in> users"
    using assms(2) by auto
  then have "filter (\<lambda>i. word_of_int i \<in> users) ids = ids"
    by (simp add: filter_id_conv)
  then show ?thesis
    using r assms(1) by (simp add: filter_id_in_def distinct_remdups_id)
qed

lemma fold_user_set_add:
  "fold user_set_add us st = st\<lparr>user_set := user_set st \<union> set us\<rparr>"
  by (induction us arbitrary: st) (auto simp: user_set_add_def)

lemma filter_id_in_repeated:
  assumes "\<not> distinct ids" and "filter_id_in users ids = Inr found"
  shows "length found < length ids"
proof -
  from assms(2) have f: "found = remdups (filter (\<lambda>i. word_of_int i \<in> users) ids)"
    by (auto simp: filter_id_in_def split: if_splits)
  have "length found \<le> length (remdups ids)"
    unfolding f by (simp add: remdups_filter)
  moreover have "length (remdups ids) < length ids"
    using assms(1) length_remdups_leq [of ids] length_remdups_eq [of ids]
    by (simp add: le_neq_implies_less remdups_id_iff_distinct)
  ultimately show ?thesis by simp
qed

lemma filter_id_in_cases:
  "filter_id_in users ids = Inl OverflowError \<and> \<not> list_all in_int64 ids
   \<or> (\<exists>found. filter_id_in users ids = Inr found \<and> list_all in_int64 ids)"
  by (simp add: filter_id_in_def)

text \<open>
  Claim C2.  The claim: an add of members whose list names the same existing
  user twice succeeds and leaves the membership that the list with the user
  once gives.  The handler compares the number of references with the number
  of rows found, so a list of ids with a repeated id never matches: when the
  database takes the ids it raises "Can not add a non-existent user to group"
  and adds nobody, whether the users exist or not.
\<close>

theorem group_add_duplicate_reference:
  assumes "members_of v = Inr members" and "member_ids members = Inr ids"
    and "\<not> distinct ids"
  shows "group_handle_add users (Some (Simple (''members'', None, None))) v operation st
           = Raised
               (if list_all in_int64 ids
                then BadRequestError ''Can not add a non-existent user to group'' None
                else OverflowError) st"
  using assms(1,2) filter_id_in_cases [of users ids] filter_id_in_repeated [OF assms(3), of users]
  by (auto simp: group_handle_add_def)

theorem group_add_duplicate_reference_witness:
  "group_handle_add users0 (Some (Simple (''members'', None, None)))
     (Raw (JList [JDict [(''value'', JStr ''1'')], JDict [(''value'', JStr ''1'')]]))
     \<lparr>opr_op = Some ''add'', opr_path = Some ''members'', opr_value = JNull\<rparr> group0
     = Raised (BadRequestError ''Can not add a non-existent user to group'' None) group0
   \<and> group_handle_add users0 (Some (Simple (''members'', None, None)))
     (Raw (JList [JDict [(''value'', JStr ''1'')]]))
     \<lparr>opr_op = Some ''add'', opr_path = Some ''members'', opr_value = JNull\<rparr> group0
     = Done (group0\<lparr>user_set := {1, 2}\<rparr>)"
proof -
  have m: "members_of (Raw (JList [JDict [(''value'', JStr ''1'')],
               JDict [(''value'', JStr ''1'')]]))
           = Inr [JDict [(''value'', JStr ''1'')], JDict [(''value'', JStr ''1'')]]"
    by simp
  have ids: "member_ids [JDict [(''value'', JStr ''1'')], JDict [(''value'', JStr ''1'')]]
           = Inr [1, 1]"
    by code_simp
  have d: "\<not> distinct [1, 1 :: int]" by simp
  have r: "list_all in_int64 [1, 1]" by (simp add: in_int64_def)
  have once: "group_handle_add users0 (Some (Simple (''members'', None, None)))
     (Raw (JList [JDict [(''value'', JStr ''1'')]]))
     \<lparr>opr_op = Some ''add'', opr_path = Some ''members'', opr_value = JNull\<rparr> group0
     = Done (group0\<lparr>user_set := {1, 2}\<rparr>)"
    by code_simp
  show ?thesis
    using group_add_duplicate_reference [OF m ids d, of users0 _ group0] once r by simp
qed

text \<open>
  Claim C4, as amended.  The claim: an add that names an id of no user fails
  with the BadRequest "Can not add a non-existent user to group" and leaves
  the group as it was.  The adapter hands the ids to the database unchecked,
  and for an id no signed 64-bit integer holds the lookup itself raises.  What
  holds: the add fails and the group is as it was, nobody being added before
  the failure; and when every id is in the range of a signed 64-bit integer,
  the failure is that BadRequest.
\<close>

theorem group_add_missing_user:
  assumes "members_of v = Inr members" and "member_ids members = Inr ids"
    and "\<exists>i \<in> set ids. i \<notin> sint ` users"
  shows "\<exists>e. group_handle_add users (Some (Simple (''members'', None, None))) v operation st
             = Raised e st
           \<and> (list_all in_int64 ids \<longrightarrow>
                e = BadRequestError ''Can not add a non-existent user to group'' None)"
proof -
  from assms(3) obtain i where i: "i \<in> set ids" "i \<notin> sint ` users" by blast
  show ?thesis
    using assms(1,2) filter_id_in_cases [of users ids] filter_id_in_missing [OF i, of ]
    by (auto simp: group_handle_add_def)
qed

theorem group_add_missing_user_witness:
  "group_handle_add users0 (Some (Simple (''members'', None, None)))
     (Raw (JList [JDict [(''value'', JStr ''1'')], JDict [(''value'', JStr ''999'')]]))
     \<lparr>opr_op = Some ''add'', opr_path = Some ''members'', opr_value = JNull\<rparr> group0
   = Raised (BadRequestError ''Can not add a non-existent user to group'' None) group0"
proof -
  have m: "members_of (Raw (JList [JDict [(''value'', JStr ''1'')],
               JDict [(''value'', JStr ''999'')]]))
           = Inr [JDict [(''value'', JStr ''1'')], JDict [(''value'', JStr ''999'')]]"
    by simp
  have ids: "member_ids [JDict [(''value'', JStr ''1'')], JDict [(''value'', JStr ''999'')]]
           = Inr [1, 999]"
    by code_simp
  have ex: "\<exists>i \<in> set [1, 999 :: int]. i \<notin> sint ` users0" by code_simp
  have r: "list_all in_int64 [1, 999]" by (simp add: in_int64_def)
  show ?thesis using group_add_missing_user [OF m ids ex, of _ group0] r by auto
qed

theorem group_add_missing_user_counterexample:
  "group_handle_add users0 (Some (Simple (''members'', None, None)))
     (Raw (JList [JDict [(''value'', JStr ''9223372036854775808'')]]))
     \<lparr>opr_op = Some ''add'', opr_path = Some ''members'', opr_value = JNull\<rparr> group0
     = Raised OverflowError group0
   \<and> group_handle_add users0 (Some (Simple (''members'', None, None)))
     (Raw (JList [JDict [(''value'', JStr ''9223372036854775808'')]]))
     \<lparr>opr_op = Some ''add'', opr_path = Some ''members'', opr_value = JNull\<rparr> group0
     \<noteq> Raised (BadRequestError ''Can not add a non-existent user to group'' None) group0"
proof -
  have "group_handle_add users0 (Some (Simple (''members'', None, None)))
     (Raw (JList [JDict [(''value'', JStr ''9223372036854775808'')]]))
     \<lparr>opr_op = Some ''add'', opr_path = Some ''members'', opr_value = JNull\<rparr> group0
     = Raised OverflowError group0"
    by code_simp
  then show ?thesis by simp
qed

text \<open>
  Claim C7.  When the ids of the member list are read, are pairwise different
  and all are ids of users, the add succeeds and puts exactly these users into
  the group, and the same add applied to the result succeeds and changes
  nothing: twice is once.
\<close>

theorem group_add_twice:
  assumes "members_of v = Inr members" and "member_ids members = Inr ids"
    and "distinct ids" and "set ids \<subseteq> sint ` users"
  shows "group_handle_add users (Some (Simple (''members'', None, None))) v operation st
           = Done (st\<lparr>user_set := user_set st \<union> set ids\<rparr>)
       \<and> group_handle_add users (Some (Simple (''members'', None, None))) v operation
           (st\<lparr>user_set := user_set st \<union> set ids\<rparr>)
           = Done (st\<lparr>user_set := user_set st \<union> set ids\<rparr>)"
  using assms(1,2) filter_id_in_all [OF assms(3,4)]
  by (simp add: group_handle_add_def fold_user_set_add Un_assoc)

theorem group_add_twice_witness:
  "group_handle_add users0 (Some (Simple (''members'', None, None)))
     (Raw (JList [JDict [(''value'', JStr ''1'')], JDict [(''value'', JStr ''3'')]]))
     \<lparr>opr_op = Some ''add'', opr_path = Some ''members'', opr_value = JNull\<rparr> group0
   = Done (group0\<lparr>user_set := {1, 2, 3}\<rparr>)
   \<and> group_handle_add users0 (Some (Simple (''members'', None, None)))
     (Raw (JList [JDict [(''value'', JStr ''1'')], JDict [(''value'', JStr ''3'')]]))
     \<lparr>opr_op = Some ''add'', opr_path = Some ''members'', opr_value = JNull\<rparr>
     (group0\<lparr>user_set := {1, 2, 3}\<rparr>)
   = Done (group0\<lparr>user_set := {1, 2, 3}\<rparr>)"
proof -
  have m: "members_of (Raw (JList [JDict [(''value'', JStr ''1'')],
               JDict [(''value'', JStr ''3'')]]))
           = Inr [JDict [(''value'', JStr ''1'')], JDict [(''value'', JStr ''3'')]]"
    by simp
  have ids: "member_ids [JDict [(''value'', JStr ''1'')], JDict [(''value'', JStr ''3'')]]
           = Inr [1, 3]"
    by code_simp
  have d: "distinct [1, 3 :: int]" by simp
  have sub: "set [1, 3 :: int] \<subseteq> sint ` users0" by code_simp
  have u: "user_set group0 \<union> set [1, 3] = {1, 2, 3}"
    by (auto simp: group0_def)
  show ?thesis using group_add_twice [OF m ids d sub, of _ group0] unfolding u by simp
qed

section \<open>Email selection\<close>

lemma dict_get_error: "dict_get d k = Inl e \<Longrightarrow> e = AttributeError"
  by (cases d) auto

lemma primary_entries_error: "primary_entries want es = Inl e \<Longrightarrow> e = AttributeError"
  by (induction es arbitrary: e)
    (auto split: sum.splits dest: dict_get_error)

lemma primary_entries_length:
  "primary_entries True es = Inr ps \<Longrightarrow> primary_entries False es = Inr ss \<Longrightarrow>
   length ps + length ss = length es"
  by (induction es arbitrary: ps ss) (auto split: sum.splits if_splits)

lemma py_sorted_error: "py_sorted k xs = Inl e \<Longrightarrow> e = TypeError"
  by (auto simp: py_sorted_def split: if_splits)

lemma length_insert_by: "length (insert_by k x ys) = Suc (length ys)"
  by (induction ys) auto

lemma length_foldr_insert_by: "length (foldr (insert_by k) xs []) = length xs"
  by (induction xs) (auto simp: length_insert_by)

lemma py_sorted_length: "py_sorted k xs = Inr ys \<Longrightarrow> length ys = length xs"
  by (auto simp: py_sorted_def length_foldr_insert_by split: if_splits)

lemma py_sorted_Nil: "py_sorted k xs = Inr [] \<Longrightarrow> xs = []"
  by (drule py_sorted_length) simp

text \<open>
  The branch of \<^verbatim>\<open>parse_emails\<close> that raises for no entry needs a list with
  no entry, and a list with no entry is falsy.
\<close>

lemma select_email_list_bad_request:
  assumes "select_email (JList es) = Inl (BadRequestError d t)"
  shows "es = []"
proof -
  from assms obtain ps ss where
    p: "primary_entries True es = Inr ps" and p': "py_sorted value_of ps = Inr []" and
    s: "primary_entries False es = Inr ss" and s': "py_sorted value_of ss = Inr []"
    unfolding select_email_def
    by (auto split: sum.splits list.splits
        dest!: primary_entries_error py_sorted_error dict_get_error)
  from p' s' have "ps = []" "ss = []" by (auto dest: py_sorted_Nil)
  with primary_entries_length [OF p s] show ?thesis by simp
qed

text \<open>
  Claim C1, as amended.  The claim: an empty list of emails fails with the
  BadRequest "Invalid email value".  The rule is guarded by \<^verbatim>\<open>if value:\<close>
  and an empty list is falsy: the rule returns without an error and leaves the
  user as it was (\<^verbatim>\<open>from_dict\<close> passes an empty list when the document has no
  emails).  What holds: the empty list changes nothing and raises nothing, and
  a list input ends in that BadRequest only when the list has an entry and the
  validation rejects the value selected from it; the state is then the one
  given.
\<close>

theorem parse_emails_empty_list:
  "parse_emails EmailValidator (JList []) st = Done st
   \<and> (parse_emails EmailValidator (JList es) st
        = Raised (BadRequestError ''Invalid email value'' None) st'
      \<longrightarrow> es \<noteq> [] \<and> st' = st
          \<and> (\<exists>x. select_email (JList es) = Inr x
                \<and> validate_email EmailValidator x
                    = Some (BadRequestError ''Invalid email value'' None)))"
proof (intro conjI impI)
  show "parse_emails EmailValidator (JList []) st = Done st"
    by (simp add: parse_emails_def)
next
  assume r: "parse_emails EmailValidator (JList es) st
        = Raised (BadRequestError ''Invalid email value'' None) st'"
  then show ne: "es \<noteq> []" by (auto simp: parse_emails_def)
  from r show "st' = st"
    by (auto simp: parse_emails_def split: if_splits sum.splits option.splits)
  from r ne show "\<exists>x. select_email (JList es) = Inr x
                \<and> validate_email EmailValidator x
                    = Some (BadRequestError ''Invalid email value'' None)"
    by (auto simp: parse_emails_def split: if_splits sum.splits option.splits
        dest: select_email_list_bad_request)
qed

theorem parse_emails_empty_list_witness:
  "parse_emails at_sign_validator
     (JList [JDict [(''value'', JStr ''nobody''), (''primary'', JBool True)]]) user0
     = Raised (BadRequestError ''Invalid email value'' None) user0
   \<and> parse_emails at_sign_validator (JList []) user0 = Done user0
   \<and> (\<exists>x. select_email
             (JList [JDict [(''value'', JStr ''nobody''), (''primary'', JBool True)]]) = Inr x
          \<and> validate_email at_sign_validator x
              = Some (BadRequestError ''Invalid email value'' None))"
proof -
  have r: "parse_emails at_sign_validator
     (JList [JDict [(''value'', JStr ''nobody''), (''primary'', JBool True)]]) user0
     = Raised (BadRequestError ''Invalid email value'' None) user0"
    by code_simp
  show ?thesis
    using r parse_emails_empty_list [of at_sign_validator user0
        "[JDict [(''value'', JStr ''nobody''), (''primary'', JBool True)]]" user0]
    by blast
qed

theorem parse_emails_empty_list_counterexample:
  "parse_emails at_sign_validator (JList []) user0 = Done user0
   \<and> parse_emails at_sign_validator (JList []) user0
       \<noteq> Raised (BadRequestError ''Invalid email value'' None) user0"
  by (simp add: parse_emails_def)

lemma well_formed_entryD:
  assumes "well_formed_entry e"
  obtains kvs s where "e = JDict kvs" "map_of kvs ''value'' = Some (JStr s)"
  using assms unfolding well_formed_entry_def
  by (auto split: json.splits option.splits)

lemma well_formed_value_of:
  "well_formed_entry e \<Longrightarrow> value_of e = JStr (entry_value e)"
  by (erule well_formed_entryD) (simp add: value_of_def entry_value_def)

lemma well_formed_dict_get:
  "well_formed_entry e \<Longrightarrow> dict_get e ''value'' = Inr (JStr (entry_value e))"
  by (erule well_formed_entryD) (simp add: value_of_def entry_value_def)

lemma primary_entries_well_formed:
  "list_all well_formed_entry es \<Longrightarrow>
   primary_entries want es = Inr (filter (\<lambda>e. is_primary e = want) es)"
proof (induction es)
  case Nil
  show ?case by simp
next
  case (Cons e es)
  from Cons.prems have "well_formed_entry e" by simp
  then obtain kvs where "e = JDict kvs" by (rule well_formed_entryD)
  with Cons show ?case by (simp add: is_primary_def)
qed

lemma sort_key_short: "length xs \<le> 1 \<Longrightarrow> sort_key f xs = xs"
  by (cases xs) auto

text \<open>On entries whose values are strings, the stable sort by \<^verbatim>\<open><\<close> is the sort by value.\<close>

lemma insert_by_well_formed:
  assumes "well_formed_entry x" and "list_all well_formed_entry ys"
  shows "insert_by value_of x ys = insort_key entry_value x ys"
  using assms(2)
proof (induction ys)
  case Nil
  show ?case by simp
next
  case (Cons y ys)
  then have "value_of y = JStr (entry_value y)" and "list_all well_formed_entry ys"
    by (simp_all add: well_formed_value_of)
  moreover have "value_of x = JStr (entry_value x)"
    using assms(1) by (rule well_formed_value_of)
  ultimately show ?case using Cons.IH by auto
qed

lemma foldr_insert_by_well_formed:
  "list_all well_formed_entry xs \<Longrightarrow>
   foldr (insert_by value_of) xs [] = sort_key entry_value xs"
proof (induction xs)
  case Nil
  show ?case by simp
next
  case (Cons x xs)
  then have ih: "foldr (insert_by value_of) xs [] = sort_key entry_value xs"
    and x: "well_formed_entry x" and xs: "list_all well_formed_entry xs"
    by simp_all
  have "list_all well_formed_entry (sort_key entry_value xs)"
    using xs by (simp add: list_all_iff)
  then show ?case
    using ih insert_by_well_formed [OF x] by simp
qed

lemma py_sorted_well_formed:
  assumes "list_all well_formed_entry xs"
  shows "py_sorted value_of xs = Inr (sort_key entry_value xs)"
proof -
  have "\<And>x y. x \<in> set xs \<Longrightarrow> y \<in> set xs \<Longrightarrow> json_lt (value_of x) (value_of y) \<noteq> None"
    using assms by (simp add: list_all_iff well_formed_value_of)
  then have "list_all (\<lambda>x. list_all (\<lambda>y. json_lt (value_of x) (value_of y) \<noteq> None) xs) xs"
    by (simp add: list_all_iff)
  then show ?thesis
    using foldr_insert_by_well_formed [OF assms]
    by (simp add: py_sorted_def sort_key_short)
qed

lemma hd_sort_key_Min:
  fixes f :: "'a \<Rightarrow> 'k::linorder"
  assumes "xs \<noteq> []"
  shows "f (hd (sort_key f xs)) = Min (f ` set xs)"
proof -
  let ?ys = "sort_key f xs"
  have ne: "?ys \<noteq> []" using assms by (metis length_sort length_0_conv)
  then obtain y ys where ys: "?ys = y # ys" by (cases ?ys) auto
  have "sorted (map f ?ys)" by (rule sorted_sort_key)
  then have le: "\<forall>z \<in> set ?ys. f y \<le> f z" using ys by auto
  have mem: "y \<in> set xs" using ys by (metis list.set_intros(1) set_sort)
  have "Min (f ` set xs) = f y"
  proof (rule Min_eqI)
    show "finite (f ` set xs)" by simp
    show "\<And>z. z \<in> f ` set xs \<Longrightarrow> f y \<le> z" using le by auto
    show "f y \<in> f ` set xs" using mem by simp
  qed
  then show ?thesis using ys by simp
qed

lemma hd_append_if: "hd (xs @ ys) = (if xs = [] then hd ys else hd xs)"
  by (cases xs) auto

lemma sort_key_Nil_iff: "sort_key f xs = [] \<longleftrightarrow> xs = []"
  by (metis length_sort length_0_conv)

lemma spec_email_order_Nil_iff: "spec_email_order es = [] \<longleftrightarrow> es = []"
proof -
  have "length (spec_email_order es) = length es"
    unfolding spec_email_order_def by (simp add: sum_length_filter_compl)
  then show ?thesis by (metis length_0_conv)
qed

lemma set_spec_email_order: "set (spec_email_order es) = set es"
  unfolding spec_email_order_def by auto

lemma select_email_well_formed:
  assumes "es \<noteq> []" and "list_all well_formed_entry es"
  shows "select_email (JList es) = Inr (JStr (entry_value (hd (spec_email_order es))))"
proof -
  have wf_p: "list_all well_formed_entry (filter (\<lambda>e. is_primary e = True) es)"
    and wf_s: "list_all well_formed_entry (filter (\<lambda>e. is_primary e = False) es)"
    using assms(2) by (simp_all add: list_all_iff)
  obtain e rest where order: "spec_email_order es = e # rest"
    using assms(1) spec_email_order_Nil_iff [of es] by (cases "spec_email_order es") auto
  have "e \<in> set es" using order set_spec_email_order [of es] by (metis list.set_intros(1))
  then have "well_formed_entry e" using assms(2) by (simp add: list_all_iff)
  then have get: "dict_get e ''value'' = Inr (JStr (entry_value e))"
    by (rule well_formed_dict_get)
  have "select_email (JList es) =
      (case spec_email_order es of
         [] \<Rightarrow> Inl (BadRequestError ''Invalid email value'' None)
       | e # _ \<Rightarrow> dict_get e ''value'')"
    using primary_entries_well_formed [OF assms(2)]
      py_sorted_well_formed [OF wf_p] py_sorted_well_formed [OF wf_s]
    by (simp add: select_email_def spec_email_order_def)
  then show ?thesis using order get by simp
qed

lemma spec_email_order_least:
  assumes "es \<noteq> []"
  shows "entry_value (hd (spec_email_order es)) =
     (if \<exists>e \<in> set es. is_primary e
      then Min (entry_value ` {e \<in> set es. is_primary e})
      else Min (entry_value ` set es))"
proof (cases "\<exists>e \<in> set es. is_primary e")
  case True
  then have ne: "filter is_primary es \<noteq> []" by (simp add: filter_empty_conv)
  then have "hd (spec_email_order es) = hd (sort_key entry_value (filter is_primary es))"
    unfolding spec_email_order_def by (simp add: hd_append_if sort_key_Nil_iff)
  then show ?thesis using True hd_sort_key_Min [OF ne, of entry_value] by simp
next
  case False
  then have "filter is_primary es = []" and "filter (\<lambda>e. \<not> is_primary e) es = es"
    by (simp_all add: filter_empty_conv filter_id_conv)
  then have "hd (spec_email_order es) = hd (sort_key entry_value es)"
    unfolding spec_email_order_def by simp
  then show ?thesis using False hd_sort_key_Min [OF assms, of entry_value] by simp
qed

text \<open>
  Claim C5.  For a non-empty list of well-formed entries, the email the rule
  selects is the value of the first entry of the specification's order
  (primary entries sorted by value, then the others sorted by value): the
  least value of the primary entries when there is one, the least value of all
  entries otherwise.  It is the email stored when the validator accepts it.
\<close>

theorem email_selection:
  assumes "es \<noteq> []" and "list_all well_formed_entry es"
  shows "select_email (JList es) = Inr (JStr (entry_value (hd (spec_email_order es))))
    \<and> entry_value (hd (spec_email_order es)) =
        (if \<exists>e \<in> set es. is_primary e
         then Min (entry_value ` {e \<in> set es. is_primary e})
         else Min (entry_value ` set es))
    \<and> (EmailValidator (JStr (entry_value (hd (spec_email_order es)))) = None \<longrightarrow>
        parse_emails EmailValidator (JList es) st
          = Done (st\<lparr>obj := (obj st)\<lparr>email := JStr (entry_value (hd (spec_email_order es)))\<rparr>\<rparr>))"
proof (intro conjI impI)
  show sel: "select_email (JList es) = Inr (JStr (entry_value (hd (spec_email_order es))))"
    using assms by (rule select_email_well_formed)
  show "entry_value (hd (spec_email_order es)) =
        (if \<exists>e \<in> set es. is_primary e
         then Min (entry_value ` {e \<in> set es. is_primary e})
         else Min (entry_value ` set es))"
    using assms(1) by (rule spec_email_order_least)
  assume "EmailValidator (JStr (entry_value (hd (spec_email_order es)))) = None"
  then show "parse_emails EmailValidator (JList es) st
          = Done (st\<lparr>obj := (obj st)\<lparr>email := JStr (entry_value (hd (spec_email_order es)))\<rparr>\<rparr>)"
    using assms(1) sel by (simp add: parse_emails_def validate_email_def)
qed

theorem email_selection_witness:
  "select_email (JList example_emails) = Inr (JStr ''a@x.com'')
   \<and> parse_emails at_sign_validator (JList example_emails) user0
       = Done (user0\<lparr>obj := (obj user0)\<lparr>email := JStr ''a@x.com''\<rparr>\<rparr>)"
proof -
  have ne: "example_emails \<noteq> []" by (simp add: example_emails_def)
  have wf: "list_all well_formed_entry example_emails" by code_simp
  have first: "entry_value (hd (spec_email_order example_emails)) = ''a@x.com''"
    by code_simp
  have ok: "at_sign_validator (JStr ''a@x.com'') = None"
    by (simp add: at_sign_validator_def)
  show ?thesis
    using email_selection [OF ne wf, of at_sign_validator user0] ok
    unfolding first by simp
qed

section \<open>The dispatcher\<close>

lemma parse_path_and_value_no_path:
  "\<not> isinstance_dict v \<Longrightarrow> parse_path_and_value AttrPaths ATTR_MAP None v = Inl TypeError"
  by (cases v) (simp_all add: isinstance_dict_def split_path_def)

text \<open>
  Claim C10.  An operation with no path whose value is no mapping ends in the
  \<^verbatim>\<open>TypeError\<close> of \<^verbatim>\<open>None + ' eq ""'\<close>, whatever its op code, whatever the adapter
  and whatever follows it: the normalisation runs first, so neither the check
  of the op code nor the check of a remove without a path is reached, and the
  resource is as it was.
\<close>

theorem pathless_non_mapping:
  assumes "opr_path operation = None" and "\<not> isinstance_dict (opr_value operation)"
  shows "handle_operations AttrPaths ATTR_MAP getattr (operation # operations) st
           = Raised TypeError st"
  using assms by (simp add: parse_path_and_value_no_path)

theorem pathless_non_mapping_witness:
  "handle_operations bare_attr_paths GROUP_ATTR_MAP probe_adapter
     [\<lparr>opr_op = Some ''remove'', opr_path = None, opr_value = JList [JStr ''x'']\<rparr>] 0
   = Raised TypeError 0"
proof -
  have v: "\<not> isinstance_dict (opr_value
      \<lparr>opr_op = Some ''remove'', opr_path = None, opr_value = JList [JStr ''x'']\<rparr>)"
    by (simp add: isinstance_dict_def)
  show ?thesis
    using pathless_non_mapping [OF _ v, of bare_attr_paths GROUP_ATTR_MAP probe_adapter "[]" 0]
    by simp
qed

text \<open>
  Claim C8, as amended.  The claim: for every operation, an op code that is
  not add, remove or replace in lower case fails with the BadRequest "Unknown
  PATCH op".  The normalisation of path and value runs before the op code is
  read, so an operation it rejects never reaches the check (the
  specification's \<^verbatim>\<open>{op: "frobnicate"}\<close>, with no path and no value, is one).
  What holds, for an operation whose normalisation succeeds: an op code
  outside the set in lower case fails with that BadRequest, whatever the
  handlers are and with the resource as it was; an op code inside the set in
  lower case, not a remove without a path, goes to the handler named by the
  lower-case form.
\<close>

theorem op_code_check:
  assumes "parse_path_and_value AttrPaths ATTR_MAP (opr_path operation) (opr_value operation)
             = Inr (path, v)"
    and "opr_op operation = Some raw_op"
  shows "(lower raw_op \<notin> set VALID_PATCH_OPS \<longrightarrow>
            handle_operations AttrPaths ATTR_MAP getattr (operation # operations) st
              = Raised (BadRequestError
                  (''Unknown PATCH op '' @ [dquote] @ lower raw_op @ [dquote]) None) st)
       \<and> (lower raw_op \<in> set VALID_PATCH_OPS \<longrightarrow>
            \<not> (lower raw_op = ''remove'' \<and> path = None) \<longrightarrow>
            getattr (''handle_'' @ lower raw_op) = Some handler \<longrightarrow>
            handle_operations AttrPaths ATTR_MAP getattr (operation # operations) st
              = (case handler path v operation st of
                   Raised e st' \<Rightarrow> Raised e st'
                 | Done st' \<Rightarrow> handle_operations AttrPaths ATTR_MAP getattr operations st'))"
  using assms by (simp add: Let_def)

theorem op_code_check_witness:
  "handle_operations bare_attr_paths USER_ATTR_MAP probe_adapter
     [\<lparr>opr_op = Some ''Frobnicate'', opr_path = Some ''userName'', opr_value = JStr ''x''\<rparr>] 0
     = Raised (BadRequestError (''Unknown PATCH op '' @ [dquote] @ ''frobnicate'' @ [dquote])
         None) 0
   \<and> handle_operations bare_attr_paths USER_ATTR_MAP probe_adapter
     [\<lparr>opr_op = Some ''Replace'', opr_path = Some ''userName'', opr_value = JStr ''x''\<rparr>] 0
     = Done 1"
proof -
  let ?unknown = "\<lparr>opr_op = Some ''Frobnicate'', opr_path = Some ''userName'',
      opr_value = JStr ''x''\<rparr>"
  let ?mixed = "\<lparr>opr_op = Some ''Replace'', opr_path = Some ''userName'',
      opr_value = JStr ''x''\<rparr>"
  let ?count = "\<lambda>(path :: path option) (v :: nvalue) (operation :: operation) n. Done (Suc n)"
  have n1: "parse_path_and_value bare_attr_paths USER_ATTR_MAP (opr_path ?unknown)
      (opr_value ?unknown) = Inr (Some (Simple (''userName'', None, None)), Raw (JStr ''x''))"
    by code_simp
  have n2: "parse_path_and_value bare_attr_paths USER_ATTR_MAP (opr_path ?mixed)
      (opr_value ?mixed) = Inr (Some (Simple (''userName'', None, None)), Raw (JStr ''x''))"
    by code_simp
  have o1: "opr_op ?unknown = Some ''Frobnicate''" and o2: "opr_op ?mixed = Some ''Replace''"
    by simp_all
  have l1: "lower ''Frobnicate'' = ''frobnicate''" and l2: "lower ''Replace'' = ''replace''"
    by code_simp+
  have g: "probe_adapter (''handle_'' @ ''replace'') = Some ?count"
    by (simp add: probe_adapter_def)
  have a: "handle_operations bare_attr_paths USER_ATTR_MAP probe_adapter [?unknown] 0
     = Raised (BadRequestError (''Unknown PATCH op '' @ [dquote] @ ''frobnicate'' @ [dquote])
         None) 0"
    using op_code_check [OF n1 o1, of probe_adapter "[]" 0 ?count]
    unfolding l1 by (simp add: VALID_PATCH_OPS_def)
  have b: "handle_operations bare_attr_paths USER_ATTR_MAP probe_adapter [?mixed] 0 = Done 1"
    using op_code_check [OF n2 o2, of probe_adapter "[]" 0 ?count] g
    unfolding l2 by (simp add: VALID_PATCH_OPS_def)
  show ?thesis using a b by simp
qed

theorem op_code_check_counterexample:
  "handle_operations bare_attr_paths USER_ATTR_MAP (user_adapter at_sign_validator (unique_username_save [JStr ''carol'']))
     [\<lparr>opr_op = Some ''frobnicate'', opr_path = None, opr_value = JNull\<rparr>] user0
     = Raised TypeError user0
   \<and> handle_operations bare_attr_paths USER_ATTR_MAP (user_adapter at_sign_validator (unique_username_save [JStr ''carol'']))
     [\<lparr>opr_op = Some ''frobnicate'', opr_path = None, opr_value = JNull\<rparr>] user0
     \<noteq> Raised (BadRequestError (''Unknown PATCH op '' @ [dquote] @ ''frobnicate'' @ [dquote])
         None) user0"
  by (simp add: split_path_def)


text \<open>
  Claim C9.  When the normalisation gives no path and the op code is remove
  in lower case, the dispatcher fails with the BadRequest of type noTarget,
  whatever the handlers are and with the resource as it was.
\<close>

theorem remove_without_path:
  assumes "parse_path_and_value AttrPaths ATTR_MAP (opr_path operation) (opr_value operation)
             = Inr (None, v)"
    and "opr_op operation = Some raw_op" and "lower raw_op = ''remove''"
  shows "handle_operations AttrPaths ATTR_MAP getattr (operation # operations) st
           = Raised (BadRequestError
               ([dquote] @ ''path'' @ [dquote] @ '' must be specified during ''
                  @ [dquote] @ ''remove'' @ [dquote] @ '' PATCH calls'')
               (Some ''noTarget'')) st"
  using assms by (simp add: VALID_PATCH_OPS_def)

theorem remove_without_path_witness:
  "handle_operations bare_attr_paths GROUP_ATTR_MAP (group_adapter users0 (unique_name_save []))
     [\<lparr>opr_op = Some ''Remove'', opr_path = None,
       opr_value = JDict [(''members'', JList [JDict [(''value'', JStr ''2'')]])]\<rparr>] group0
   = Raised (BadRequestError
       ([dquote] @ ''path'' @ [dquote] @ '' must be specified during ''
          @ [dquote] @ ''remove'' @ [dquote] @ '' PATCH calls'')
       (Some ''noTarget'')) group0"
proof -
  let ?op = "\<lparr>opr_op = Some ''Remove'', opr_path = None,
       opr_value = JDict [(''members'', JList [JDict [(''value'', JStr ''2'')]])]\<rparr>"
  have n: "parse_path_and_value bare_attr_paths GROUP_ATTR_MAP (opr_path ?op) (opr_value ?op)
      = Inr (None, PathDict [(Simple (''members'', None, None),
               JList [JDict [(''value'', JStr ''2'')]])])"
    by code_simp
  have o: "opr_op ?op = Some ''Remove''" by simp
  have l: "lower ''Remove'' = ''remove''" by code_simp
  show ?thesis
    using remove_without_path [OF n o l, of "group_adapter users0 (unique_name_save [])" "[]" group0] by simp
qed

section \<open>Replace without a path\<close>

lemma lower_replace: "lower ''replace'' = ''replace''"
  by code_simp

lemma resolves_in_mapD:
  assumes "resolves_in_map AttrPaths k"
  shows "split_path AttrPaths USER_ATTR_MAP (Some k) = Inr (resolved AttrPaths k)"
    and "attr_map_get USER_ATTR_MAP (PathKey (resolved AttrPaths k)) \<noteq> None"
  using assms unfolding resolves_in_map_def resolved_def
  by (auto split: sum.splits path.splits)

lemma update_fresh:
  "p \<notin> fst ` set acc \<Longrightarrow> AList.update p v acc = acc @ [(p, v)]"
  by (induction acc) auto

lemma split_items_distinct:
  assumes "list_all (\<lambda>(k, v). resolves_in_map AttrPaths k) kvs"
    and "distinct (map fst acc @ map (\<lambda>(k, v). resolved AttrPaths k) kvs)"
  shows "split_items AttrPaths USER_ATTR_MAP kvs acc
           = Inr (acc @ map (\<lambda>(k, v). (resolved AttrPaths k, v)) kvs)"
  using assms
proof (induction kvs arbitrary: acc)
  case Nil
  show ?case by simp
next
  case (Cons kv kvs)
  obtain k v where kv: "kv = (k, v)" by (cases kv)
  from Cons.prems(1) kv have r: "resolves_in_map AttrPaths k"
    and rest: "list_all (\<lambda>(k, v). resolves_in_map AttrPaths k) kvs" by simp_all
  from Cons.prems(2) kv have fresh: "resolved AttrPaths k \<notin> fst ` set acc"
    by auto
  have d: "distinct (map fst (acc @ [(resolved AttrPaths k, v)])
             @ map (\<lambda>(k, v). resolved AttrPaths k) kvs)"
    using Cons.prems(2) kv by auto
  show ?case
    using Cons.IH [OF rest d] resolves_in_mapD(1) [OF r] update_fresh [OF fresh] kv
    by simp
qed

lemma distinct_resolved:
  assumes "list_all (\<lambda>(k, v). resolves_in_map AttrPaths k) kvs"
    and "distinct (map (\<lambda>(k, v). split_path AttrPaths USER_ATTR_MAP (Some k)) kvs)"
  shows "distinct (map (\<lambda>(k, v). resolved AttrPaths k) kvs)"
proof -
  have eq: "map (\<lambda>(k, v). split_path AttrPaths USER_ATTR_MAP (Some k)) kvs
      = map Inr (map (\<lambda>(k, v). resolved AttrPaths k) kvs)"
    using assms(1) by (induction kvs) (auto dest: resolves_in_mapD(1))
  from assms(2) show ?thesis
    unfolding eq
    using distinct_map [of Inr "map (\<lambda>(k, v). resolved AttrPaths k) kvs"] by blast
qed

lemma replace_items_assign:
  assumes "list_all (\<lambda>(k, v). attr_map_get USER_ATTR_MAP k \<noteq> None) items"
  shows "replace_items EmailValidator items st = Done (st\<lparr>obj := assign_items items (obj st)\<rparr>)"
  using assms
proof (induction items arbitrary: st)
  case Nil
  show ?case by simp
next
  case (Cons item items)
  obtain k v where item: "item = (k, v)" by (cases item)
  with Cons.prems obtain field where f: "attr_map_get USER_ATTR_MAP k = Some field"
    and rest: "list_all (\<lambda>(k, v). attr_map_get USER_ATTR_MAP k \<noteq> None) items"
    by auto
  show ?case using Cons.IH [OF rest] f item by simp
qed

lemma path_items_in_map:
  "list_all (\<lambda>(k, v). resolves_in_map AttrPaths k) kvs \<Longrightarrow>
   list_all (\<lambda>(k, v). attr_map_get USER_ATTR_MAP k \<noteq> None) (path_items AttrPaths kvs)"
  unfolding path_items_def
  by (induction kvs) (auto dest: resolves_in_mapD(2))

text \<open>
  The operation without a path assigns every key and saves once, whatever the
  save answers.
\<close>

lemma pathless_replace_result:
  assumes "list_all (\<lambda>(k, v). resolves_in_map AttrPaths k) kvs"
    and "distinct (map (\<lambda>(k, v). split_path AttrPaths USER_ATTR_MAP (Some k)) kvs)"
  shows "handle_operations AttrPaths USER_ATTR_MAP (user_adapter EmailValidator Model_save)
           [pathless_replace kvs] st
         = save Model_save (st\<lparr>obj := assign_items (path_items AttrPaths kvs) (obj st)\<rparr>)"
proof -
  have "split_items AttrPaths USER_ATTR_MAP kvs []
      = Inr (map (\<lambda>(k, v). (resolved AttrPaths k, v)) kvs)"
    using split_items_distinct [OF assms(1), of "[]"] distinct_resolved [OF assms] by simp
  then have n: "parse_path_and_value AttrPaths USER_ATTR_MAP None (JDict kvs)
      = Inr (None, PathDict (map (\<lambda>(k, v). (resolved AttrPaths k, v)) kvs))"
    by (simp add: not_path_def)
  have items: "dict_items (PathDict (map (\<lambda>(k, v). (resolved AttrPaths k, v)) kvs))
      = Some (path_items AttrPaths kvs)"
    by (simp add: dict_items_def path_items_def case_prod_unfold)
  have h: "user_handle_replace EmailValidator Model_save None
       (PathDict (map (\<lambda>(k, v). (resolved AttrPaths k, v)) kvs)) (pathless_replace kvs) st
      = save Model_save (st\<lparr>obj := assign_items (path_items AttrPaths kvs) (obj st)\<rparr>)"
    using items replace_items_assign [OF path_items_in_map [OF assms(1)]]
    by (simp add: user_handle_replace_def)
  have g: "user_adapter EmailValidator Model_save (''handle_'' @ ''replace'')
      = Some (user_handle_replace EmailValidator Model_save)"
    by (simp add: user_adapter_def)
  show ?thesis
    using n h g
    by (simp add: pathless_replace_def lower_replace VALID_PATCH_OPS_def save_def
        split: option.splits)
qed

text \<open>One replace with a key as path assigns the key and saves.\<close>

lemma replace_one_key:
  assumes "resolves_in_map AttrPaths k"
    and "Model_save (assign_items [(PathKey (resolved AttrPaths k), JStr s)] (obj st)) = None"
  shows "handle_operations AttrPaths USER_ATTR_MAP (user_adapter EmailValidator Model_save)
           (\<lparr>opr_op = Some ''replace'', opr_path = Some k, opr_value = JStr s\<rparr> # operations) st
         = handle_operations AttrPaths USER_ATTR_MAP (user_adapter EmailValidator Model_save)
             operations
             \<lparr>obj = assign_items [(PathKey (resolved AttrPaths k), JStr s)] (obj st),
              stored = assign_items [(PathKey (resolved AttrPaths k), JStr s)] (obj st)\<rparr>"
proof -
  have n: "parse_path_and_value AttrPaths USER_ATTR_MAP (Some k) (JStr s)
      = Inr (Some (resolved AttrPaths k), Raw (JStr s))"
    using resolves_in_mapD(1) [OF assms(1)] by simp
  obtain field where f: "attr_map_get USER_ATTR_MAP (PathKey (resolved AttrPaths k)) = Some field"
    using resolves_in_mapD(2) [OF assms(1)] by auto
  have h: "user_handle_replace EmailValidator Model_save (Some (resolved AttrPaths k))
       (Raw (JStr s)) \<lparr>opr_op = Some ''replace'', opr_path = Some k, opr_value = JStr s\<rparr> st
      = Done \<lparr>obj = assign_items [(PathKey (resolved AttrPaths k), JStr s)] (obj st),
              stored = assign_items [(PathKey (resolved AttrPaths k), JStr s)] (obj st)\<rparr>"
    using f assms(2) by (simp add: user_handle_replace_def dict_items_def save_def)
  have g: "user_adapter EmailValidator Model_save (''handle_'' @ ''replace'')
      = Some (user_handle_replace EmailValidator Model_save)"
    by (simp add: user_adapter_def)
  show ?thesis
    using n h g by (simp add: lower_replace VALID_PATCH_OPS_def)
qed

lemma assign_items_Cons:
  "assign_items (item # rest) u = assign_items rest (assign_items [item] u)"
  by (cases item) simp

lemma replace_per_key_result:
  assumes "list_all (\<lambda>(k, v). isinstance_str v) kvs"
    and "list_all (\<lambda>(k, v). resolves_in_map AttrPaths k) kvs"
    and "per_key_saves Model_save (path_items AttrPaths kvs) (obj st)"
  shows "handle_operations AttrPaths USER_ATTR_MAP (user_adapter EmailValidator Model_save)
           (replace_per_key kvs) st
         = Done (if kvs = [] then st
                 else \<lparr>obj = assign_items (path_items AttrPaths kvs) (obj st),
                       stored = assign_items (path_items AttrPaths kvs) (obj st)\<rparr>)"
  using assms
proof (induction kvs arbitrary: st)
  case Nil
  show ?case by (simp add: replace_per_key_def)
next
  case (Cons kv kvs)
  obtain k v where kv: "kv = (k, v)" by (cases kv)
  from Cons.prems(1) kv obtain s where v: "v = JStr s"
    by (cases v) (auto simp: isinstance_str_def)
  let ?u = "assign_items [(PathKey (resolved AttrPaths k), JStr s)] (obj st)"
  let ?st = "\<lparr>obj = ?u, stored = ?u\<rparr>"
  from Cons.prems kv have r: "resolves_in_map AttrPaths k"
    and rest: "list_all (\<lambda>(k, v). isinstance_str v) kvs"
      "list_all (\<lambda>(k, v). resolves_in_map AttrPaths k) kvs"
    by simp_all
  from Cons.prems(3) kv v have ok: "Model_save ?u = None"
    and saves: "per_key_saves Model_save (path_items AttrPaths kvs) (obj ?st)"
    by (simp_all add: path_items_def)
  have step: "handle_operations AttrPaths USER_ATTR_MAP (user_adapter EmailValidator Model_save)
           (replace_per_key (kv # kvs)) st
     = handle_operations AttrPaths USER_ATTR_MAP (user_adapter EmailValidator Model_save)
           (replace_per_key kvs) ?st"
    using replace_one_key [of AttrPaths k Model_save s st EmailValidator "replace_per_key kvs"]
      r ok kv v
    by (simp add: replace_per_key_def)
  have all: "assign_items (path_items AttrPaths (kv # kvs)) (obj st)
      = assign_items (path_items AttrPaths kvs) ?u"
    using kv v assign_items_Cons [of "(PathKey (resolved AttrPaths k), JStr s)"]
    by (simp add: path_items_def)
  show ?case
    unfolding step Cons.IH [OF rest saves] all
    by (simp add: path_items_def)
qed

text \<open>
  Claim C6, as amended.  The claim: a replace without a path whose value is a
  mapping of keys in the attribute map gives the state that one replace per
  key gives.  A replace with a path accepts a string and nothing else (any
  other value with a path is not implemented), so the specification's
  \<^verbatim>\<open>{"active": true, "userName": "bob"}\<close> succeeds as one operation and fails
  as two.  What holds: when every value is a string, every key resolves to
  one attribute path of the map, different keys resolve to different paths,
  and every save the two ways make is accepted (the one after each key, and
  the one after all keys), both ways succeed with the same user object, and
  with the same saved row unless the mapping is empty (the operation without
  a path saves even then).  Nothing is said of a save that raises: the
  operation without a path has then assigned every key, the operations with
  one key each only those up to the failing save.
\<close>

theorem pathless_replace_as_separate:
  assumes "list_all (\<lambda>(k, v). isinstance_str v) kvs"
    and "list_all (\<lambda>(k, v). resolves_in_map AttrPaths k) kvs"
    and "distinct (map (\<lambda>(k, v). split_path AttrPaths USER_ATTR_MAP (Some k)) kvs)"
    and "per_key_saves Model_save (path_items AttrPaths kvs) (obj st)"
    and "Model_save (assign_items (path_items AttrPaths kvs) (obj st)) = None"
  shows "\<exists>st1 st2.
      handle_operations AttrPaths USER_ATTR_MAP (user_adapter EmailValidator Model_save)
        [pathless_replace kvs] st = Done st1
    \<and> handle_operations AttrPaths USER_ATTR_MAP (user_adapter EmailValidator Model_save)
        (replace_per_key kvs) st = Done st2
    \<and> obj st1 = obj st2
    \<and> (kvs \<noteq> [] \<longrightarrow> st1 = st2)"
  using pathless_replace_result [OF assms(2,3), of EmailValidator Model_save st]
    replace_per_key_result [OF assms(1,2,4), of EmailValidator] assms(5)
  by (auto simp: save_def path_items_def)

theorem pathless_replace_as_separate_witness:
  "handle_operations bare_attr_paths USER_ATTR_MAP
     (user_adapter at_sign_validator (unique_username_save [JStr ''carol'']))
     [pathless_replace example_names] user0
     = Done \<lparr>obj = (obj user0)\<lparr>username := JStr ''bob'', first_name := JStr ''Bob''\<rparr>,
             stored = (obj user0)\<lparr>username := JStr ''bob'', first_name := JStr ''Bob''\<rparr>\<rparr>
   \<and> handle_operations bare_attr_paths USER_ATTR_MAP
     (user_adapter at_sign_validator (unique_username_save [JStr ''carol'']))
     (replace_per_key example_names) user0
     = Done \<lparr>obj = (obj user0)\<lparr>username := JStr ''bob'', first_name := JStr ''Bob''\<rparr>,
             stored = (obj user0)\<lparr>username := JStr ''bob'', first_name := JStr ''Bob''\<rparr>\<rparr>"
proof -
  have h1: "list_all (\<lambda>(k, v). isinstance_str v) example_names" by code_simp
  have h2: "list_all (\<lambda>(k, v). resolves_in_map bare_attr_paths k) example_names"
    by code_simp
  have h3: "distinct (map (\<lambda>(k, v). split_path bare_attr_paths USER_ATTR_MAP (Some k))
      example_names)"
    by code_simp
  have h4: "per_key_saves (unique_username_save [JStr ''carol''])
      (path_items bare_attr_paths example_names) (obj user0)"
    by code_simp
  have h5: "unique_username_save [JStr ''carol'']
      (assign_items (path_items bare_attr_paths example_names) (obj user0)) = None"
    by code_simp
  have ne: "example_names \<noteq> []" by (simp add: example_names_def)
  have a: "handle_operations bare_attr_paths USER_ATTR_MAP
     (user_adapter at_sign_validator (unique_username_save [JStr ''carol'']))
     [pathless_replace example_names] user0
     = Done \<lparr>obj = (obj user0)\<lparr>username := JStr ''bob'', first_name := JStr ''Bob''\<rparr>,
             stored = (obj user0)\<lparr>username := JStr ''bob'', first_name := JStr ''Bob''\<rparr>\<rparr>"
    by code_simp
  show ?thesis
    using pathless_replace_as_separate [OF h1 h2 h3 h4 h5, of at_sign_validator] a ne
    by auto
qed

theorem pathless_replace_as_separate_counterexample:
  "handle_operations bare_attr_paths USER_ATTR_MAP
     (user_adapter at_sign_validator (unique_username_save [JStr ''carol'']))
     [pathless_replace example_mapping] user0
     = Done \<lparr>obj = (obj user0)\<lparr>username := JStr ''bob'', is_active := JBool True\<rparr>,
             stored = (obj user0)\<lparr>username := JStr ''bob'', is_active := JBool True\<rparr>\<rparr>
   \<and> handle_operations bare_attr_paths USER_ATTR_MAP
     (user_adapter at_sign_validator (unique_username_save [JStr ''carol'']))
     (replace_per_key example_mapping) user0
     = Raised (NotImplementedError (Some
         (''PATCH replace operation with value type of ''
           @ ''{type(value)} is not implemented''))) user0"
  by code_simp

end
